theory Spec2Isabelle
  imports Main
begin

section \<open>The vending machine of VENDING1.PY\<close>

text \<open>
  The Python classes become records, the enums datatypes. A method that mutates its
  object takes the object and returns it updated. A method that can raise returns a pair:
  the result (\<open>Inl\<close> the exception, \<open>Inr\<close> the returned value) and the object as the
  call leaves it, because \<open>ItemShelf.remove_item\<close> writes a field before it raises.
\<close>

subsection \<open>Data\<close>

datatype ItemType = COKE | PEPSI | JUICE | SODA

record Item =
  type :: ItemType
  price :: int

record ItemShelf =
  code :: int
  items :: "Item list"
  is_sold_out :: bool

datatype Coin = ONE | TWO | FIVE | TEN

text \<open>The member \<open>value\<close> of the enum \<open>Coin\<close>.\<close>

fun coin_value :: "Coin \<Rightarrow> int" where
  "coin_value ONE = 1"
| "coin_value TWO = 2"
| "coin_value FIVE = 5"
| "coin_value TEN = 10"

text \<open>
  The source raises the one class \<open>Exception\<close> and tells the cases apart by the message.
  One constructor stands for each message:
  \<^item> \<open>OutOfStock\<close>: "Item out of stock";
  \<^item> \<open>InvalidShelfCode\<close>: "Invalid shelf code";
  \<^item> \<open>InsufficientFunds p t\<close>: "Insufficient funds. Price: p, Paid: t";
  \<^item> \<open>InvalidStateTransition\<close>: "Can't insert coins in current state" and
    "Insert coins before selecting item".
\<close>

datatype error =
    OutOfStock
  | InvalidShelfCode
  | InsufficientFunds int int
  | InvalidStateTransition

subsection \<open>ItemShelf\<close>

definition ItemShelf_init :: "int \<Rightarrow> ItemShelf" where
  "ItemShelf_init c = \<lparr>code = c, items = [], is_sold_out = False\<rparr>"

definition ItemShelf_add_item :: "Item \<Rightarrow> ItemShelf \<Rightarrow> ItemShelf" where
  "ItemShelf_add_item item self = self\<lparr>items := items self @ [item], is_sold_out := False\<rparr>"

definition ItemShelf_remove_item :: "ItemShelf \<Rightarrow> (error + Item) \<times> ItemShelf" where
  "ItemShelf_remove_item self =
     (case items self of
        [] \<Rightarrow> (Inl OutOfStock, self\<lparr>is_sold_out := True\<rparr>)
      | item # rest \<Rightarrow>
          (Inr item,
           if rest = [] then self\<lparr>items := rest, is_sold_out := True\<rparr>
           else self\<lparr>items := rest\<rparr>))"

text \<open>
  The shelf states a program can produce: a constructed shelf, and what \<open>add_item\<close> and
  \<open>remove_item\<close> (returning or raising) leave behind.
\<close>

inductive shelf_reachable :: "ItemShelf \<Rightarrow> bool" where
  fresh: "shelf_reachable (ItemShelf_init c)"
| added: "shelf_reachable s \<Longrightarrow> shelf_reachable (ItemShelf_add_item item s)"
| removed: "shelf_reachable s \<Longrightarrow> shelf_reachable (snd (ItemShelf_remove_item s))"

text \<open>
  \<open>remove_times n s\<close> calls \<open>remove_item\<close> \<open>n\<close> times in a row and collects what the calls
  returned, in call order; it stops at the first call that raises.
\<close>

fun remove_times :: "nat \<Rightarrow> ItemShelf \<Rightarrow> (error + Item list) \<times> ItemShelf" where
  "remove_times 0 s = (Inr [], s)"
| "remove_times (Suc n) s =
     (case ItemShelf_remove_item s of
        (Inl e, s') \<Rightarrow> (Inl e, s')
      | (Inr item, s') \<Rightarrow>
          (case remove_times n s' of
             (Inl e, s'') \<Rightarrow> (Inl e, s'')
           | (Inr got, s'') \<Rightarrow> (Inr (item # got), s'')))"

subsection \<open>Inventory\<close>

record Inventory =
  shelves :: "ItemShelf list"

text \<open>\<open>Inventory(size)\<close>: the shelves \<open>100, 101, ...\<close>; \<open>range\<close> of a negative size is empty.\<close>

definition Inventory_init :: "int \<Rightarrow> Inventory" where
  "Inventory_init n = \<lparr>shelves = map (\<lambda>i. ItemShelf_init (100 + int i)) [0..<nat n]\<rparr>"

text \<open>
  The two loops \<open>for shelf in self.shelves\<close>: the first shelf whose code matches is acted
  on and the loop is left; a loop that runs to its end raises.
\<close>

fun add_item_loop :: "int \<Rightarrow> Item \<Rightarrow> ItemShelf list \<Rightarrow> (error + unit) \<times> ItemShelf list" where
  "add_item_loop c item [] = (Inl InvalidShelfCode, [])"
| "add_item_loop c item (shelf # rest) =
     (if code shelf = c then (Inr (), ItemShelf_add_item item shelf # rest)
      else (case add_item_loop c item rest of (r, rest') \<Rightarrow> (r, shelf # rest')))"

definition Inventory_add_item :: "int \<Rightarrow> Item \<Rightarrow> Inventory \<Rightarrow> (error + unit) \<times> Inventory" where
  "Inventory_add_item c item self =
     (case add_item_loop c item (shelves self) of (r, ss) \<Rightarrow> (r, self\<lparr>shelves := ss\<rparr>))"

fun get_item_loop :: "int \<Rightarrow> ItemShelf list \<Rightarrow> (error + Item) \<times> ItemShelf list" where
  "get_item_loop c [] = (Inl InvalidShelfCode, [])"
| "get_item_loop c (shelf # rest) =
     (if code shelf = c
      then (case ItemShelf_remove_item shelf of (r, shelf') \<Rightarrow> (r, shelf' # rest))
      else (case get_item_loop c rest of (r, rest') \<Rightarrow> (r, shelf # rest')))"

definition Inventory_get_item :: "int \<Rightarrow> Inventory \<Rightarrow> (error + Item) \<times> Inventory" where
  "Inventory_get_item c self =
     (case get_item_loop c (shelves self) of (r, ss) \<Rightarrow> (r, self\<lparr>shelves := ss\<rparr>))"

text \<open>
  The shelf that a code addresses: the first one in the list that carries the code, the
  one both loops stop at. It is used to state the properties, not by the program.
\<close>

fun find_shelf :: "int \<Rightarrow> ItemShelf list \<Rightarrow> ItemShelf option" where
  "find_shelf c [] = None"
| "find_shelf c (shelf # rest) = (if code shelf = c then Some shelf else find_shelf c rest)"

subsection \<open>VendingMachine\<close>

text \<open>
  The field \<open>state\<close> is a Python string, compared with the literals \<open>"IDLE"\<close> and
  \<open>"HAS_MONEY"\<close>; the latter is the state that the specification calls \<open>HAS_FUNDS\<close>.
  \<open>selected_code\<close> is an integer or \<open>None\<close>.
\<close>

record VendingMachine =
  state :: string
  inventory :: Inventory
  inserted_coins :: "Coin list"
  selected_code :: "int option"

definition VendingMachine_init :: VendingMachine where
  "VendingMachine_init =
     \<lparr>state = ''IDLE'', inventory = Inventory_init 10, inserted_coins = [],
      selected_code = None\<rparr>"

definition insert_coin :: "Coin \<Rightarrow> VendingMachine \<Rightarrow> (error + unit) \<times> VendingMachine" where
  "insert_coin coin self =
     (if state self \<notin> set [''IDLE'', ''HAS_MONEY'']
      then (Inl InvalidStateTransition, self)
      else (Inr (), self\<lparr>inserted_coins := inserted_coins self @ [coin],
                         state := ''HAS_MONEY''\<rparr>))"

definition reset :: "VendingMachine \<Rightarrow> VendingMachine" where
  "reset self = self\<lparr>state := ''IDLE'', inserted_coins := [], selected_code := None\<rparr>"

text \<open>
  What \<open>select_product\<close> prints before it returns: the dispensed item with the change,
  or the exception that its \<open>except\<close> clause caught.
\<close>

datatype report = Dispensed Item int | Failed error

text \<open>
  The state test raises before the \<open>try\<close>, so that exception reaches the caller (\<open>Inl\<close>)
  and nothing has been written. Everything raised inside the \<open>try\<close> is caught, printed
  and followed by \<open>reset\<close>; the call then returns normally (\<open>Inr\<close>). The inventory is
  kept as \<open>get_item\<close> left it on every path.
\<close>

definition select_product :: "int \<Rightarrow> VendingMachine \<Rightarrow> (error + report) \<times> VendingMachine" where
  "select_product c self =
     (if state self \<noteq> ''HAS_MONEY'' then (Inl InvalidStateTransition, self)
      else
        let self1 = self\<lparr>selected_code := Some c\<rparr>;
            total = sum_list (map coin_value (inserted_coins self1))
        in (case Inventory_get_item c (inventory self1) of
              (Inl e, invt) \<Rightarrow> (Inr (Failed e), reset (self1\<lparr>inventory := invt\<rparr>))
            | (Inr item, invt) \<Rightarrow>
                if total < price item
                then (Inr (Failed (InsufficientFunds (price item) total)),
                      reset (self1\<lparr>inventory := invt\<rparr>))
                else (Inr (Dispensed item (total - price item)),
                      reset (self1\<lparr>inventory := invt\<rparr>))))"

text \<open>\<open>load_items\<close>: the inner loop adds one item three times, the outer loop runs over the shelves.\<close>

fun add_times :: "nat \<Rightarrow> int \<Rightarrow> Item \<Rightarrow> Inventory \<Rightarrow> (error + unit) \<times> Inventory" where
  "add_times 0 c item invt = (Inr (), invt)"
| "add_times (Suc n) c item invt =
     (case Inventory_add_item c item invt of
        (Inl e, invt') \<Rightarrow> (Inl e, invt')
      | (Inr u, invt') \<Rightarrow> add_times n c item invt')"

fun load_loop :: "nat list \<Rightarrow> Inventory \<Rightarrow> (error + unit) \<times> Inventory" where
  "load_loop [] invt = (Inr (), invt)"
| "load_loop (i # rest) invt =
     (let item_type = [COKE, PEPSI, JUICE, SODA] ! (i mod 4);
          price = 10 + int (i mod 3) * 5
      in (case add_times (Suc (Suc (Suc 0))) (100 + int i) \<lparr>type = item_type, price = price\<rparr> invt of
            (Inl e, invt') \<Rightarrow> (Inl e, invt')
          | (Inr u, invt') \<Rightarrow> load_loop rest invt'))"

definition load_items :: "VendingMachine \<Rightarrow> (error + unit) \<times> VendingMachine" where
  "load_items self =
     (case load_loop [0..<10] (inventory self) of (r, invt) \<Rightarrow> (r, self\<lparr>inventory := invt\<rparr>))"

text \<open>
  The machine states a program can produce from a constructed machine by calls of
  \<open>load_items\<close>, \<open>insert_coin\<close> and \<open>select_product\<close>, whether a call returns or raises.
\<close>

inductive reachable :: "VendingMachine \<Rightarrow> bool" where
  constructed: "reachable VendingMachine_init"
| loaded: "reachable vm \<Longrightarrow> reachable (snd (load_items vm))"
| coin: "reachable vm \<Longrightarrow> reachable (snd (insert_coin c vm))"
| selected: "reachable vm \<Longrightarrow> reachable (snd (select_product c vm))"

text \<open>The number that \<open>display\<close> prints for a shelf, \<open>len(shelf.items)\<close>, looked up by code.\<close>

definition stock_count :: "int \<Rightarrow> Inventory \<Rightarrow> nat option" where
  "stock_count c invt = map_option (\<lambda>shelf. length (items shelf)) (find_shelf c (shelves invt))"

text \<open>The sum that \<open>select_product\<close> computes over the inserted coins.\<close>

definition total_inserted :: "VendingMachine \<Rightarrow> int" where
  "total_inserted vm = sum_list (map coin_value (inserted_coins vm))"

text \<open>
  The machine of the main block: constructed and loaded, and then with the coins
  \<open>TEN\<close> and \<open>FIVE\<close> inserted.
\<close>

definition main_loaded :: VendingMachine where
  "main_loaded = snd (load_items VendingMachine_init)"

definition main_paid :: VendingMachine where
  "main_paid = snd (insert_coin FIVE (snd (insert_coin TEN main_loaded)))"

section \<open>Properties of the shelf\<close>

lemma remove_item_empty:
  "items s = [] \<Longrightarrow> ItemShelf_remove_item s = (Inl OutOfStock, s\<lparr>is_sold_out := True\<rparr>)"
  by (simp add: ItemShelf_remove_item_def)

lemma remove_item_cons:
  "items s = item # rest \<Longrightarrow>
   fst (ItemShelf_remove_item s) = Inr item \<and> items (snd (ItemShelf_remove_item s)) = rest"
  by (simp add: ItemShelf_remove_item_def)

lemma code_remove_item [simp]: "code (snd (ItemShelf_remove_item s)) = code s"
  by (cases "items s") (simp_all add: ItemShelf_remove_item_def)

lemma remove_item_sold_out_iff:
  "is_sold_out s \<longrightarrow> items s = [] \<Longrightarrow>
   is_sold_out (snd (ItemShelf_remove_item s)) \<longleftrightarrow> items (snd (ItemShelf_remove_item s)) = []"
  by (cases "items s") (auto simp add: ItemShelf_remove_item_def)

lemma items_fold_add_item:
  "items (fold ItemShelf_add_item xs s) = items s @ xs"
  by (induction xs arbitrary: s) (simp_all add: ItemShelf_add_item_def)

lemma remove_times_all:
  "length (items s) = n \<Longrightarrow> fst (remove_times n s) = Inr (items s)"
proof (induction n arbitrary: s)
  case 0
  then show ?case by simp
next
  case (Suc n)
  then obtain item rest where its: "items s = item # rest"
    by (cases "items s") simp_all
  define s' where "s' = snd (ItemShelf_remove_item s)"
  have rm: "ItemShelf_remove_item s = (Inr item, s')" and its': "items s' = rest"
    using remove_item_cons [OF its] by (simp_all add: s'_def prod_eq_iff)
  from Suc.prems its have "length (items s') = n"
    by (simp add: its')
  then have "fst (remove_times n s') = Inr rest"
    using Suc.IH its' by simp
  then show ?case
    by (cases "remove_times n s'") (simp add: rm its)
qed

lemma reachable_sold_out_imp_empty:
  "shelf_reachable s \<Longrightarrow> is_sold_out s \<longrightarrow> items s = []"
proof (induction rule: shelf_reachable.induct)
  case (fresh c)
  show ?case by (simp add: ItemShelf_init_def)
next
  case (added s item)
  show ?case by (simp add: ItemShelf_add_item_def)
next
  case (removed s)
  then show ?case using remove_item_sold_out_iff [of s] by simp
qed

text \<open>
  C2, as the code has it. A constructed shelf starts with \<open>is_sold_out = False\<close> and no
  stock, so the flag does not yet tell that the shelf is empty. After every call of
  \<open>add_item\<close> or \<open>remove_item\<close> on a reachable shelf, returning or raising, the flag is
  true exactly when the stock is empty; and in every reachable state a set flag means an
  empty stock.
\<close>

theorem C2_sold_out_after_mutation:
  "shelf_reachable s \<Longrightarrow>
     (is_sold_out (ItemShelf_add_item item s) \<longleftrightarrow> items (ItemShelf_add_item item s) = [])
   \<and> (is_sold_out (snd (ItemShelf_remove_item s))
        \<longleftrightarrow> items (snd (ItemShelf_remove_item s)) = [])
   \<and> (is_sold_out s \<longrightarrow> items s = [])
   \<and> \<not> is_sold_out (ItemShelf_init c) \<and> items (ItemShelf_init c) = []"
proof -
  assume r: "shelf_reachable s"
  have inv: "is_sold_out s \<longrightarrow> items s = []"
    using r by (rule reachable_sold_out_imp_empty)
  have a: "is_sold_out (ItemShelf_add_item item s) \<longleftrightarrow> items (ItemShelf_add_item item s) = []"
    by (simp add: ItemShelf_add_item_def)
  have b: "is_sold_out (snd (ItemShelf_remove_item s))
      \<longleftrightarrow> items (snd (ItemShelf_remove_item s)) = []"
    using inv by (rule remove_item_sold_out_iff)
  have c: "\<not> is_sold_out (ItemShelf_init c) \<and> items (ItemShelf_init c) = []"
    by (simp add: ItemShelf_init_def)
  from a b inv c show ?thesis by blast
qed

theorem C2_sold_out_after_mutation_witness:
  "shelf_reachable (snd (ItemShelf_remove_item (ItemShelf_init 100)))
   \<and> is_sold_out (snd (ItemShelf_remove_item (ItemShelf_init 100)))
   \<and> items (snd (ItemShelf_remove_item (ItemShelf_init 100))) = []
   \<and> \<not> is_sold_out (ItemShelf_add_item \<lparr>type = COKE, price = 10\<rparr>
          (snd (ItemShelf_remove_item (ItemShelf_init 100))))
   \<and> is_sold_out (snd (ItemShelf_remove_item (snd (ItemShelf_remove_item (ItemShelf_init 100)))))"
proof -
  have r: "shelf_reachable (snd (ItemShelf_remove_item (ItemShelf_init 100)))"
    by (rule shelf_reachable.removed) (rule shelf_reachable.fresh)
  have e: "is_sold_out (snd (ItemShelf_remove_item (ItemShelf_init 100)))"
    by (simp add: ItemShelf_remove_item_def ItemShelf_init_def)
  from C2_sold_out_after_mutation [OF r, of "\<lparr>type = COKE, price = 10\<rparr>" 100] r e
  show ?thesis
    by (simp add: ItemShelf_remove_item_def ItemShelf_init_def ItemShelf_add_item_def)
qed

text \<open>
  C2, as it is stated, fails on the constructed shelf: its stock is empty and its flag
  is false.
\<close>

theorem C2_fresh_shelf_counterexample:
  "shelf_reachable (ItemShelf_init 100)
   \<and> \<not> (is_sold_out (ItemShelf_init 100) \<longleftrightarrow> items (ItemShelf_init 100) = [])"
  using shelf_reachable.fresh [of 100] by (simp add: ItemShelf_init_def)

text \<open>
  C5. Whatever items are added to a shelf, one after the other, as many calls of
  \<open>remove_item\<close> as there are items return them in the order in which they were added,
  the earliest first. For a shelf that already holds stock, the older stock comes out
  before the newly added items, in its own order.
\<close>

theorem C5_fifo:
  "fst (remove_times (length xs) (fold ItemShelf_add_item xs (ItemShelf_init c))) = Inr xs
   \<and> fst (remove_times (length (items s) + length xs) (fold ItemShelf_add_item xs s))
       = Inr (items s @ xs)"
proof
  have "items (fold ItemShelf_add_item xs (ItemShelf_init c)) = xs"
    by (simp add: items_fold_add_item ItemShelf_init_def)
  then show "fst (remove_times (length xs) (fold ItemShelf_add_item xs (ItemShelf_init c)))
      = Inr xs"
    using remove_times_all [of "fold ItemShelf_add_item xs (ItemShelf_init c)" "length xs"]
    by simp
next
  show "fst (remove_times (length (items s) + length xs) (fold ItemShelf_add_item xs s))
      = Inr (items s @ xs)"
    using remove_times_all [of "fold ItemShelf_add_item xs s" "length (items s) + length xs"]
    by (simp add: items_fold_add_item)
qed

section \<open>Properties of the inventory\<close>

lemma find_shelf_None_iff: "find_shelf c ss = None \<longleftrightarrow> (\<forall>shelf\<in>set ss. code shelf \<noteq> c)"
  by (induction ss) simp_all

lemma find_shelf_Some_code: "find_shelf c ss = Some shelf \<Longrightarrow> code shelf = c \<and> shelf \<in> set ss"
  by (induction ss) (auto split: if_splits)

lemma get_item_loop_unknown:
  "find_shelf c ss = None \<Longrightarrow> get_item_loop c ss = (Inl InvalidShelfCode, ss)"
  by (induction ss) (simp_all split: if_splits)

lemma get_item_loop_found:
  "find_shelf c ss = Some shelf \<Longrightarrow>
   fst (get_item_loop c ss) = fst (ItemShelf_remove_item shelf)
   \<and> find_shelf c (snd (get_item_loop c ss)) = Some (snd (ItemShelf_remove_item shelf))"
proof (induction ss)
  case Nil
  then show ?case by simp
next
  case (Cons a ss)
  show ?case
  proof (cases "code a = c")
    case True
    with Cons.prems have "a = shelf" by simp
    with True show ?thesis by (simp add: split_beta)
  next
    case False
    with Cons.prems have "find_shelf c ss = Some shelf" by simp
    with Cons.IH False show ?thesis by (simp add: split_beta)
  qed
qed

lemma get_item_loop_other:
  "c' \<noteq> c \<Longrightarrow> find_shelf c' (snd (get_item_loop c ss)) = find_shelf c' ss"
  by (induction ss) (simp_all add: split_beta)

lemma get_item_unknown:
  "find_shelf c (shelves invt) = None \<Longrightarrow> Inventory_get_item c invt = (Inl InvalidShelfCode, invt)"
  by (simp add: Inventory_get_item_def get_item_loop_unknown)

lemma get_item_found:
  "find_shelf c (shelves invt) = Some shelf \<Longrightarrow>
   fst (Inventory_get_item c invt) = fst (ItemShelf_remove_item shelf)
   \<and> find_shelf c (shelves (snd (Inventory_get_item c invt)))
       = Some (snd (ItemShelf_remove_item shelf))"
  using get_item_loop_found [of c "shelves invt" shelf]
  by (simp add: Inventory_get_item_def split_beta)

text \<open>
  The shelf codes of an inventory are those of its construction, pairwise different, and
  neither \<open>add_item\<close> nor \<open>get_item\<close> changes them. With pairwise different codes, the
  shelf that a code addresses is the only shelf that carries it.
\<close>

lemma codes_Inventory_init:
  "map code (shelves (Inventory_init n)) = map (\<lambda>i. 100 + int i) [0..<nat n]
   \<and> distinct (map code (shelves (Inventory_init n)))"
proof -
  have m: "map code (shelves (Inventory_init n)) = map (\<lambda>i. 100 + int i) [0..<nat n]"
    by (simp add: Inventory_init_def ItemShelf_init_def comp_def)
  have "inj_on (\<lambda>i. 100 + int i) (set [0..<nat n])"
    by (rule inj_onI) simp
  then have "distinct (map (\<lambda>i. 100 + int i) [0..<nat n])"
    by (simp add: distinct_map)
  with m show ?thesis by simp
qed

lemma codes_get_item_loop: "map code (snd (get_item_loop c ss)) = map code ss"
  by (induction ss) (simp_all add: split_beta)

lemma codes_add_item_loop: "map code (snd (add_item_loop c item ss)) = map code ss"
  by (induction ss) (simp_all add: split_beta ItemShelf_add_item_def)

lemma codes_get_item:
  "map code (shelves (snd (Inventory_get_item c invt))) = map code (shelves invt)"
  by (simp add: Inventory_get_item_def split_beta codes_get_item_loop)

lemma codes_add_item:
  "map code (shelves (snd (Inventory_add_item c item invt))) = map code (shelves invt)"
  by (simp add: Inventory_add_item_def split_beta codes_add_item_loop)

lemma find_shelf_distinct:
  "distinct (map code ss) \<Longrightarrow> shelf \<in> set ss \<Longrightarrow> find_shelf (code shelf) ss = Some shelf"
  by (induction ss) auto

text \<open>
  C6. \<open>Inventory.get_item\<close> raises "Invalid shelf code" when no shelf carries the code
  (and leaves the inventory as it was). When the shelf that the code addresses has no
  stock, it raises "Item out of stock", the exception of \<open>ItemShelf.remove_item\<close>, and
  that shelf is left with \<open>is_sold_out = True\<close> and nothing else changed.
\<close>

theorem C6_get_item_errors:
  "((\<forall>shelf\<in>set (shelves invt). code shelf \<noteq> c) \<longrightarrow>
      Inventory_get_item c invt = (Inl InvalidShelfCode, invt))
   \<and> (find_shelf c (shelves invt) = Some s \<and> items s = [] \<longrightarrow>
        fst (Inventory_get_item c invt) = Inl OutOfStock
        \<and> find_shelf c (shelves (snd (Inventory_get_item c invt)))
            = Some (s\<lparr>is_sold_out := True\<rparr>))"
proof (intro conjI impI)
  assume "\<forall>shelf\<in>set (shelves invt). code shelf \<noteq> c"
  then have "find_shelf c (shelves invt) = None"
    by (simp add: find_shelf_None_iff)
  then show "Inventory_get_item c invt = (Inl InvalidShelfCode, invt)"
    by (rule get_item_unknown)
next
  assume h: "find_shelf c (shelves invt) = Some s \<and> items s = []"
  then have rm: "ItemShelf_remove_item s = (Inl OutOfStock, s\<lparr>is_sold_out := True\<rparr>)"
    by (simp add: remove_item_empty)
  from h get_item_found [of c invt s] rm
  show "fst (Inventory_get_item c invt) = Inl OutOfStock" by simp
  from h get_item_found [of c invt s] rm
  show "find_shelf c (shelves (snd (Inventory_get_item c invt))) = Some (s\<lparr>is_sold_out := True\<rparr>)"
    by simp
qed

theorem C6_get_item_errors_witness:
  "list_all (\<lambda>shelf. code shelf \<noteq> 999) (shelves (Inventory_init 10))
   \<and> Inventory_get_item 999 (Inventory_init 10) = (Inl InvalidShelfCode, Inventory_init 10)
   \<and> find_shelf 101 (shelves (Inventory_init 10)) = Some (ItemShelf_init 101)
   \<and> items (ItemShelf_init 101) = []
   \<and> fst (Inventory_get_item 101 (Inventory_init 10)) = Inl OutOfStock
   \<and> find_shelf 101 (shelves (snd (Inventory_get_item 101 (Inventory_init 10))))
       = Some \<lparr>code = 101, items = [], is_sold_out = True\<rparr>"
proof -
  have a: "\<forall>shelf\<in>set (shelves (Inventory_init 10)). code shelf \<noteq> 999"
    by (auto simp add: Inventory_init_def ItemShelf_init_def)
  have b: "find_shelf 101 (shelves (Inventory_init 10)) = Some (ItemShelf_init 101)"
    by code_simp
  have c: "items (ItemShelf_init 101) = []"
    by (simp add: ItemShelf_init_def)
  from C6_get_item_errors [of "Inventory_init 10" 999] a
  have d: "Inventory_get_item 999 (Inventory_init 10) = (Inl InvalidShelfCode, Inventory_init 10)"
    by blast
  from C6_get_item_errors [of "Inventory_init 10" 101 "ItemShelf_init 101"] b c
  have e: "fst (Inventory_get_item 101 (Inventory_init 10)) = Inl OutOfStock
     \<and> find_shelf 101 (shelves (snd (Inventory_get_item 101 (Inventory_init 10))))
         = Some ((ItemShelf_init 101)\<lparr>is_sold_out := True\<rparr>)"
    by blast
  from a b c d e show ?thesis
    by (simp add: ItemShelf_init_def list_all_iff)
qed

section \<open>Properties of the machine\<close>

lemma get_item_loop_raises:
  "fst (get_item_loop c ss) = Inl e \<Longrightarrow> e = InvalidShelfCode \<or> e = OutOfStock"
proof (induction ss)
  case Nil
  then show ?case by simp
next
  case (Cons a ss)
  show ?case
  proof (cases "code a = c")
    case True
    with Cons.prems show ?thesis
      by (cases "items a") (simp_all add: ItemShelf_remove_item_def)
  next
    case False
    with Cons show ?thesis by (simp add: split_beta)
  qed
qed

lemma get_item_raises:
  "fst (Inventory_get_item c invt) = Inl e \<Longrightarrow> e = InvalidShelfCode \<or> e = OutOfStock"
  using get_item_loop_raises [of c "shelves invt" e]
  by (simp add: Inventory_get_item_def split_beta)

lemma select_product_has_money:
  "state vm = ''HAS_MONEY'' \<Longrightarrow>
   select_product c vm =
     (case fst (Inventory_get_item c (inventory vm)) of
        Inl e \<Rightarrow> Inr (Failed e)
      | Inr item \<Rightarrow>
          if total_inserted vm < price item
          then Inr (Failed (InsufficientFunds (price item) (total_inserted vm)))
          else Inr (Dispensed item (total_inserted vm - price item)),
      vm\<lparr>state := ''IDLE'', inventory := snd (Inventory_get_item c (inventory vm)),
         inserted_coins := [], selected_code := None\<rparr>)"
  by (simp add: select_product_def total_inserted_def reset_def Let_def
      split: prod.splits sum.splits)

lemma load_items_frame:
  "state (snd (load_items vm)) = state vm
   \<and> inserted_coins (snd (load_items vm)) = inserted_coins vm
   \<and> selected_code (snd (load_items vm)) = selected_code vm"
  by (simp add: load_items_def split_beta)

lemma reachable_invariant:
  "reachable vm \<Longrightarrow>
   (state vm = ''IDLE'' \<or> state vm = ''HAS_MONEY'')
   \<and> (state vm = ''IDLE'' \<longrightarrow> inserted_coins vm = [] \<and> selected_code vm = None)"
proof (induction rule: reachable.induct)
  case constructed
  show ?case by (simp add: VendingMachine_init_def)
next
  case (loaded vm)
  then show ?case by (simp add: load_items_frame)
next
  case (coin vm c)
  then show ?case by (auto simp add: insert_coin_def)
next
  case (selected vm c)
  show ?case
  proof (cases "state vm = ''HAS_MONEY''")
    case True
    then show ?thesis by (simp add: select_product_has_money)
  next
    case False
    with selected.IH show ?thesis by (simp add: select_product_def)
  qed
qed

text \<open>
  The path of \<open>select_product\<close> on which the funds do not cover the price: the head item
  has already been taken off the shelf by \<open>get_item\<close> when the comparison is made, and
  nothing puts it back.
\<close>

lemma select_product_insufficient:
  assumes "state vm = ''HAS_MONEY''"
    and "find_shelf c (shelves (inventory vm)) = Some s"
    and "items s = item # rest"
    and "total_inserted vm < price item"
  shows "fst (select_product c vm)
           = Inr (Failed (InsufficientFunds (price item) (total_inserted vm)))
         \<and> stock_count c (inventory vm) = Some (Suc (length rest))
         \<and> stock_count c (inventory (snd (select_product c vm))) = Some (length rest)
         \<and> state (snd (select_product c vm)) = ''IDLE''"
  using assms get_item_found [of c "inventory vm" s] remove_item_cons [of s item rest]
  by (simp add: select_product_has_money stock_count_def)

text \<open>
  C1, on the machine of the main block, loaded and holding \<open>TEN\<close> and \<open>FIVE\<close>: shelf 102
  holds three items of price 20. \<open>select_product(102)\<close> reports insufficient funds with
  price 20 and paid amount 15 and resets the machine, but the shelf is left with two
  items: the stock count does not stay unchanged.
\<close>

theorem C1_insufficient_funds_takes_item:
  "state main_paid = ''HAS_MONEY''
   \<and> total_inserted main_paid = 15
   \<and> map_option (\<lambda>shelf. map price (items shelf)) (find_shelf 102 (shelves (inventory main_paid)))
       = Some [20, 20, 20]
   \<and> fst (select_product 102 main_paid) = Inr (Failed (InsufficientFunds 20 15))
   \<and> state (snd (select_product 102 main_paid)) = ''IDLE''
   \<and> stock_count 102 (inventory main_paid) = Some 3
   \<and> stock_count 102 (inventory (snd (select_product 102 main_paid))) = Some 2"
proof (intro conjI)
  show "state main_paid = ''HAS_MONEY''" by code_simp
  show "total_inserted main_paid = 15" by code_simp
  show "map_option (\<lambda>shelf. map price (items shelf))
      (find_shelf 102 (shelves (inventory main_paid))) = Some [20, 20, 20]" by code_simp
  show "fst (select_product 102 main_paid) = Inr (Failed (InsufficientFunds 20 15))"
    by code_simp
  show "state (snd (select_product 102 main_paid)) = ''IDLE''" by code_simp
  show "stock_count 102 (inventory main_paid) = Some 3" by code_simp
  show "stock_count 102 (inventory (snd (select_product 102 main_paid))) = Some 2"
    by code_simp
qed

text \<open>
  C3. In state \<open>HAS_MONEY\<close> with coins of total \<open>T\<close>, \<open>select_product(code)\<close> for a shelf
  whose stock is not empty and whose head item costs \<open>P \<le> T\<close> dispenses that item,
  reports the change \<open>T - P\<close>, and leaves the shelf with the rest of its stock: one
  item fewer.
\<close>

theorem C3_dispense_and_change:
  assumes "state vm = ''HAS_MONEY''"
    and "find_shelf c (shelves (inventory vm)) = Some s"
    and "items s = item # rest"
    and "price item \<le> total_inserted vm"
  shows "fst (select_product c vm) = Inr (Dispensed item (total_inserted vm - price item))
         \<and> map_option items (find_shelf c (shelves (inventory (snd (select_product c vm)))))
             = Some rest
         \<and> stock_count c (inventory vm) = Some (Suc (length rest))
         \<and> stock_count c (inventory (snd (select_product c vm))) = Some (length rest)"
  using assms get_item_found [of c "inventory vm" s] remove_item_cons [of s item rest]
  by (simp add: select_product_has_money stock_count_def)

theorem C3_dispense_and_change_witness:
  "state main_paid = ''HAS_MONEY''
   \<and> find_shelf 100 (shelves (inventory main_paid))
       = Some \<lparr>code = 100, items = replicate 3 \<lparr>type = COKE, price = 10\<rparr>, is_sold_out = False\<rparr>
   \<and> price \<lparr>type = COKE, price = 10\<rparr> \<le> total_inserted main_paid
   \<and> fst (select_product 100 main_paid) = Inr (Dispensed \<lparr>type = COKE, price = 10\<rparr> 5)
   \<and> stock_count 100 (inventory main_paid) = Some 3
   \<and> stock_count 100 (inventory (snd (select_product 100 main_paid))) = Some 2"
proof -
  let ?coke = "\<lparr>type = COKE, price = 10\<rparr>"
  let ?s = "\<lparr>code = 100, items = replicate 3 ?coke, is_sold_out = False\<rparr>"
  have a: "state main_paid = ''HAS_MONEY''" by code_simp
  have b: "find_shelf 100 (shelves (inventory main_paid)) = Some ?s" by code_simp
  have c: "items ?s = ?coke # replicate 2 ?coke" by code_simp
  have t: "total_inserted main_paid = 15" by code_simp
  then have d: "price ?coke \<le> total_inserted main_paid" by simp
  from C3_dispense_and_change [OF a b c d] a b d t show ?thesis by simp
qed

text \<open>
  C4. A call of \<open>select_product\<close> in state \<open>HAS_MONEY\<close> returns normally with one of four
  reports (an item dispensed with change, insufficient funds, invalid shelf code, out of
  stock), and leaves the machine in state \<open>IDLE\<close> with no inserted coins and no selected
  code.
\<close>

theorem C4_select_product_resets:
  assumes "state vm = ''HAS_MONEY''"
  shows "(\<exists>item change p t.
            fst (select_product c vm) = Inr (Dispensed item change)
          \<or> fst (select_product c vm) = Inr (Failed (InsufficientFunds p t))
          \<or> fst (select_product c vm) = Inr (Failed InvalidShelfCode)
          \<or> fst (select_product c vm) = Inr (Failed OutOfStock))
         \<and> state (snd (select_product c vm)) = ''IDLE''
         \<and> inserted_coins (snd (select_product c vm)) = []
         \<and> selected_code (snd (select_product c vm)) = None"
proof -
  have "\<exists>item change p t.
            fst (select_product c vm) = Inr (Dispensed item change)
          \<or> fst (select_product c vm) = Inr (Failed (InsufficientFunds p t))
          \<or> fst (select_product c vm) = Inr (Failed InvalidShelfCode)
          \<or> fst (select_product c vm) = Inr (Failed OutOfStock)"
  proof (cases "fst (Inventory_get_item c (inventory vm))")
    case (Inl e)
    then have "e = InvalidShelfCode \<or> e = OutOfStock"
      by (rule get_item_raises)
    with Inl assms show ?thesis
      by (auto simp add: select_product_has_money)
  next
    case (Inr item)
    with assms show ?thesis
      by (simp add: select_product_has_money)
  qed
  with assms show ?thesis
    by (simp add: select_product_has_money)
qed

theorem C4_select_product_resets_witness:
  "state main_paid = ''HAS_MONEY''
   \<and> fst (select_product 101 main_paid) = Inr (Dispensed \<lparr>type = PEPSI, price = 15\<rparr> 0)
   \<and> state (snd (select_product 101 main_paid)) = ''IDLE''
   \<and> inserted_coins (snd (select_product 101 main_paid)) = []
   \<and> selected_code (snd (select_product 101 main_paid)) = None"
proof -
  have a: "state main_paid = ''HAS_MONEY''" by code_simp
  have b: "fst (select_product 101 main_paid) = Inr (Dispensed \<lparr>type = PEPSI, price = 15\<rparr> 0)"
    by code_simp
  from C4_select_product_resets [OF a, of 101] a b show ?thesis by simp
qed

text \<open>
  C7. In state \<open>IDLE\<close>, \<open>select_product\<close> raises "Insert coins before selecting item" to
  its caller for every code, and the machine, its inventory included, is as before.
\<close>

theorem C7_select_product_idle:
  "state vm = ''IDLE'' \<Longrightarrow> select_product c vm = (Inl InvalidStateTransition, vm)"
  by (simp add: select_product_def)

theorem C7_select_product_idle_witness:
  "state main_loaded = ''IDLE''
   \<and> select_product 101 main_loaded = (Inl InvalidStateTransition, main_loaded)"
proof -
  have a: "state main_loaded = ''IDLE''" by code_simp
  from C7_select_product_idle [OF a, of 101] a show ?thesis by simp
qed

text \<open>
  C8. In every state of the machine reachable from the constructed machine by calls of
  \<open>insert_coin\<close> and \<open>select_product\<close> (and of \<open>load_items\<close>), the state field is
  \<open>IDLE\<close> or \<open>HAS_MONEY\<close>, and in state \<open>IDLE\<close> there are no inserted coins and no
  selected code.
\<close>

theorem C8_state_invariant:
  "reachable vm \<Longrightarrow>
   (state vm = ''IDLE'' \<or> state vm = ''HAS_MONEY'')
   \<and> (state vm = ''IDLE'' \<longrightarrow> inserted_coins vm = [] \<and> selected_code vm = None)"
  by (rule reachable_invariant)

theorem C8_state_invariant_witness:
  "reachable (snd (select_product 101 (snd (insert_coin TEN VendingMachine_init))))
   \<and> state (snd (select_product 101 (snd (insert_coin TEN VendingMachine_init)))) = ''IDLE''
   \<and> inserted_coins (snd (select_product 101 (snd (insert_coin TEN VendingMachine_init)))) = []
   \<and> selected_code (snd (select_product 101 (snd (insert_coin TEN VendingMachine_init)))) = None"
proof -
  have r: "reachable (snd (select_product 101 (snd (insert_coin TEN VendingMachine_init))))"
    by (intro reachable.selected reachable.coin reachable.constructed)
  have i: "state (snd (select_product 101 (snd (insert_coin TEN VendingMachine_init)))) = ''IDLE''"
    by code_simp
  from C8_state_invariant [OF r] r i show ?thesis by simp
qed

text \<open>
  C9. In every reachable state of the machine \<open>insert_coin\<close> returns normally: the branch
  that raises "Can't insert coins in current state" is not taken. The call appends the
  coin to the inserted coins and sets the state to \<open>HAS_MONEY\<close>, and changes nothing else.
\<close>

theorem C9_insert_coin_succeeds:
  assumes "reachable vm"
  shows "insert_coin coin vm =
           (Inr (), vm\<lparr>inserted_coins := inserted_coins vm @ [coin], state := ''HAS_MONEY''\<rparr>)
         \<and> fst (insert_coin coin vm) \<noteq> Inl InvalidStateTransition
         \<and> inserted_coins (snd (insert_coin coin vm)) = inserted_coins vm @ [coin]
         \<and> state (snd (insert_coin coin vm)) = ''HAS_MONEY''"
proof -
  from assms have "state vm = ''IDLE'' \<or> state vm = ''HAS_MONEY''"
    using reachable_invariant by blast
  then show ?thesis
    by (auto simp add: insert_coin_def)
qed

theorem C9_insert_coin_succeeds_witness:
  "reachable (snd (insert_coin TEN (snd (load_items VendingMachine_init))))
   \<and> fst (insert_coin FIVE (snd (insert_coin TEN (snd (load_items VendingMachine_init))))) = Inr ()
   \<and> inserted_coins (snd (insert_coin FIVE (snd (insert_coin TEN (snd (load_items VendingMachine_init))))))
       = [TEN, FIVE]
   \<and> state (snd (insert_coin FIVE (snd (insert_coin TEN (snd (load_items VendingMachine_init))))))
       = ''HAS_MONEY''"
proof -
  have r: "reachable (snd (insert_coin TEN (snd (load_items VendingMachine_init))))"
    by (intro reachable.coin reachable.loaded reachable.constructed)
  have i: "inserted_coins (snd (insert_coin TEN (snd (load_items VendingMachine_init)))) = [TEN]"
    by code_simp
  from C9_insert_coin_succeeds [OF r, of FIVE] r i show ?thesis by simp
qed

text \<open>
  C10. In state \<open>HAS_MONEY\<close>, \<open>select_product\<close> with a code that no shelf carries reports
  the invalid shelf code and leaves the inventory as it was, every shelf with its stock
  and its flag; the machine differs from the one before the call only in its state, its
  inserted coins and its selected code.
\<close>

theorem C10_unknown_code_frame:
  assumes "state vm = ''HAS_MONEY''"
    and "\<forall>shelf\<in>set (shelves (inventory vm)). code shelf \<noteq> c"
  shows "inventory (snd (select_product c vm)) = inventory vm
         \<and> select_product c vm =
             (Inr (Failed InvalidShelfCode),
              vm\<lparr>state := ''IDLE'', inserted_coins := [], selected_code := None\<rparr>)"
proof -
  from assms(2) have "find_shelf c (shelves (inventory vm)) = None"
    by (simp add: find_shelf_None_iff)
  then have "Inventory_get_item c (inventory vm) = (Inl InvalidShelfCode, inventory vm)"
    by (rule get_item_unknown)
  with assms(1) show ?thesis
    by (simp add: select_product_has_money)
qed

theorem C10_unknown_code_frame_witness:
  "state main_paid = ''HAS_MONEY''
   \<and> list_all (\<lambda>shelf. code shelf \<noteq> 999) (shelves (inventory main_paid))
   \<and> inventory (snd (select_product 999 main_paid)) = inventory main_paid
   \<and> fst (select_product 999 main_paid) = Inr (Failed InvalidShelfCode)"
proof -
  have a: "state main_paid = ''HAS_MONEY''" by code_simp
  have "find_shelf 999 (shelves (inventory main_paid)) = None" by code_simp
  then have b: "\<forall>shelf\<in>set (shelves (inventory main_paid)). code shelf \<noteq> 999"
    by (simp add: find_shelf_None_iff)
  from C10_unknown_code_frame [OF a b] a b show ?thesis by (simp add: list_all_iff)
qed

end
